theory Spec2Isabelle
  imports Complex_Main "HOL-Library.Word"
begin

unbundle bit_operations_syntax

section \<open>The single-hand position solver of MercuryGestures/Hand.cpp\<close>

text \<open>
  Conventions of the embedding.
  \<^item> A \<open>cv::Point\<close> is a pair of machine integers; they are rendered as \<open>int\<close>
    (frame coordinates are far from the 32-bit range).
  \<^item> A \<open>double\<close> is rendered as a \<open>real\<close>, and the conversion of a \<open>double\<close> to
    an \<open>int\<close> truncates towards zero (\<open>toInt\<close>). Where a value is only compared with a
    threshold, the arithmetic is exact. Where a computed \<open>double\<close> is converted to a
    coordinate, in \<open>improveUsingHistory\<close>, every operation is rounded as IEEE 754
    binary64 rounds it (\<open>fl64\<close>).
  \<^item> A single-channel 8-bit \<open>cv::Mat\<close> is its size and its pixels, one byte each.
  \<^item> Drawing on the debug canvas (\<open>rgbSkinMask\<close>, \<open>color\<close>, \<open>colorBase\<close>) changes
    nothing the solver reads and is left out.
\<close>

subsection \<open>Points, images and the OpenCV primitives that are used\<close>

datatype point = Point (pt_x: int) (pt_y: int)

datatype Mat = Mat (rows: nat) (cols: nat) (pixel: "nat \<Rightarrow> nat \<Rightarrow> 8 word")

text \<open>The conversion of a \<open>double\<close> to an \<open>int\<close>: the fractional part is dropped.\<close>

definition toInt :: "real \<Rightarrow> int" where
  "toInt r = (if 0 \<le> r then \<lfloor>r\<rfloor> else \<lceil>r\<rceil>)"

text \<open>\<open>cv::Mat::zeros(rows, cols, type)\<close>.\<close>

definition zeros :: "nat \<Rightarrow> nat \<Rightarrow> Mat" where
  "zeros r c = Mat r c (\<lambda>x y. 0)"

text \<open>
  \<open>cv::circle(img, center, radius, value, CV_FILLED)\<close>: every pixel of the image that lies
  in the closed disc around \<open>center\<close> gets \<open>value\<close>; the part of the disc outside the
  image is clipped. The pixel in column \<open>x\<close> of row \<open>y\<close> is \<open>pixel img x y\<close>.
\<close>

definition inCircle :: "point \<Rightarrow> int \<Rightarrow> nat \<Rightarrow> nat \<Rightarrow> bool" where
  "inCircle center radius x y \<longleftrightarrow>
     (int x - pt_x center) * (int x - pt_x center) + (int y - pt_y center) * (int y - pt_y center)
       \<le> radius * radius"

definition circle :: "Mat \<Rightarrow> point \<Rightarrow> int \<Rightarrow> 8 word \<Rightarrow> Mat" where
  "circle img center radius v =
     Mat (rows img) (cols img)
       (\<lambda>x y. if inCircle center radius x y then v else pixel img x y)"

text \<open>\<open>cv::bitwise_and(a, b, result)\<close>, pixel by pixel.\<close>

definition bitwise_and :: "Mat \<Rightarrow> Mat \<Rightarrow> Mat" where
  "bitwise_and a b = Mat (rows a) (cols a) (\<lambda>x y. pixel a x y AND pixel b x y)"

text \<open>\<open>cv::sum(m)[0]\<close>: the sum of all pixel values of the image.\<close>

definition rowSum :: "Mat \<Rightarrow> nat \<Rightarrow> nat" where
  "rowSum m y = sum_list (map (\<lambda>x. unat (pixel m x y)) [0..<cols m])"

definition matSum :: "Mat \<Rightarrow> nat" where
  "matSum m = sum_list (map (rowSum m) [0..<rows m])"

subsection \<open>Coverage\<close>

text \<open>
  \<open>Hand::getCoverage\<close>: a filled circle is drawn on an all-zero image of the size of
  \<open>blobMap\<close>, the two are combined by a bitwise and, and the sum of the result is divided
  by \<open>radius*radius*3.1415 * 255.0\<close>. The product \<open>radius*radius\<close> is an integer product.
\<close>

definition getCoverage :: "point \<Rightarrow> Mat \<Rightarrow> int \<Rightarrow> real" where
  "getCoverage pos blobMap radius =
     (let mask = circle (zeros (rows blobMap) (cols blobMap)) pos radius 255;
          result = bitwise_and blobMap mask
      in real (matSum result) / (real_of_int (radius * radius) * 3.1415 * 255.0))"

text \<open>The number of pixels of the image that the filled circle covers.\<close>

definition circleArea :: "Mat \<Rightarrow> point \<Rightarrow> int \<Rightarrow> nat" where
  "circleArea m pos radius =
     sum_list (map (\<lambda>y. length (filter (\<lambda>x. inCircle pos radius x y) [0..<cols m])) [0..<rows m])"

text \<open>An image whose pixels all have the value \<open>v\<close>.\<close>

definition filled :: "nat \<Rightarrow> nat \<Rightarrow> 8 word \<Rightarrow> Mat" where
  "filled r c v = Mat r c (\<lambda>x y. v)"

subsection \<open>The search window\<close>

text \<open>
  Modelled from the spec: \<open>SearchSpace\<close>, \<open>getSearchSpace\<close>, \<open>toSearchSpace\<close> and
  \<open>fromSearchSpace\<close> are declared in \<open>MercuryCore.h\<close> and defined outside the two source
  files. The spec describes the window as a rectangular sub-region of the full mask with
  its own origin, into which coordinates are translated before a search and out of which
  they are translated afterwards. The window reaches \<open>sz\<close> pixels from the point in
  each direction and is clipped to the mask.
\<close>

datatype SearchSpace = SearchSpace (ss_mat: Mat) (ss_x: int) (ss_y: int)

definition getSearchSpace :: "Mat \<Rightarrow> point \<Rightarrow> int \<Rightarrow> SearchSpace" where
  "getSearchSpace m p sz =
     (let x0 = max 0 (pt_x p - sz);
          y0 = max 0 (pt_y p - sz);
          x1 = min (int (cols m)) (pt_x p + sz + 1);
          y1 = min (int (rows m)) (pt_y p + sz + 1)
      in SearchSpace
           (Mat (nat (y1 - y0)) (nat (x1 - x0)) (\<lambda>x y. pixel m (x + nat x0) (y + nat y0)))
           x0 y0)"

definition toSearchSpace :: "SearchSpace \<Rightarrow> point \<Rightarrow> point" where
  "toSearchSpace space p = Point (pt_x p - ss_x space) (pt_y p - ss_y space)"

definition fromSearchSpace :: "SearchSpace \<Rightarrow> point \<Rightarrow> point" where
  "fromSearchSpace space p = Point (pt_x p + ss_x space) (pt_y p + ss_y space)"

subsection \<open>The local search\<close>

datatype SearchMode = FREE_SEARCH | SEARCH_UP | SEARCH_DOWN | SEARCH_LEFT | SEARCH_RIGHT

text \<open>
  \<open>Hand::shiftPosition\<close> writes the shifted point to \<open>newPosition\<close> and returns its
  coverage; the model returns both.
\<close>

definition shiftPosition :: "Mat \<Rightarrow> point \<Rightarrow> int \<Rightarrow> int \<Rightarrow> int \<Rightarrow> real \<times> point" where
  "shiftPosition skinMask basePosition xOffset yOffset radius =
     (let newPos = Point (pt_x basePosition + xOffset) (pt_y basePosition + yOffset)
      in (getCoverage newPos skinMask radius, newPos))"

text \<open>
  The offsets of the candidates, in the order in which \<open>lookAround\<close> fills \<open>newValues\<close>
  and \<open>newPositions\<close> for each search mode (five entries, eight for \<open>FREE_SEARCH\<close>).
\<close>

fun offsets :: "SearchMode \<Rightarrow> int \<Rightarrow> (int \<times> int) list" where
  "offsets SEARCH_RIGHT stepSize =
     [(0, stepSize), (0, - stepSize), (- stepSize, stepSize), (- stepSize, - stepSize),
      (- stepSize, 0)]"
| "offsets SEARCH_LEFT stepSize =
     [(0, stepSize), (0, - stepSize), (stepSize, stepSize), (stepSize, - stepSize),
      (stepSize, 0)]"
| "offsets SEARCH_UP stepSize =
     [(- stepSize, 0), (stepSize, 0), (stepSize, - stepSize), (- stepSize, - stepSize),
      (0, - stepSize)]"
| "offsets SEARCH_DOWN stepSize =
     [(- stepSize, 0), (stepSize, 0), (stepSize, stepSize), (- stepSize, stepSize),
      (0, stepSize)]"
| "offsets FREE_SEARCH stepSize =
     [(stepSize, stepSize), (stepSize, - stepSize), (stepSize, 0), (- stepSize, stepSize),
      (- stepSize, - stepSize), (- stepSize, 0), (0, stepSize), (0, - stepSize)]"

definition candidates :: "Mat \<Rightarrow> point \<Rightarrow> SearchMode \<Rightarrow> int \<Rightarrow> int \<Rightarrow> (real \<times> point) list" where
  "candidates m maxPos searchMode stepSize radius =
     map (\<lambda>(xOffset, yOffset). shiftPosition m maxPos xOffset yOffset radius)
       (offsets searchMode stepSize)"

text \<open>The key under which a point is stored in the set of a search.\<close>

definition posKey :: "point \<Rightarrow> int" where
  "posKey p = pt_x p * 1000 + pt_y p"

text \<open>
  The inner loop over \<open>j\<close>: a candidate replaces the running maximum when its value is
  strictly greater and its key is not in the set. The accumulator is
  \<open>(newMax, maxIndex)\<close>, started at \<open>(0, 0)\<close>.
\<close>

fun selectBest :: "int set \<Rightarrow> (real \<times> point) list \<Rightarrow> nat \<Rightarrow> real \<times> nat \<Rightarrow> real \<times> nat" where
  "selectBest visited [] j acc = acc"
| "selectBest visited (c # cs) j acc =
     selectBest visited cs (Suc j)
       (if fst acc < fst c \<and> posKey (snd c) \<notin> visited then (fst c, j) else acc)"

text \<open>
  The state of the outer loop: the variables \<open>maxPos\<close> and \<open>maxValue\<close> of
  \<open>lookAround\<close> and its local set of keys (the local \<open>positionHistory\<close>, here
  \<open>searchHistory\<close>, since the hand has a member of that name), and two observers that
  the code does not have: the points that \<open>maxPos\<close> was moved to, in order, and the
  number of loop bodies run.
\<close>

record LookState =
  maxPos :: point
  maxValue :: real
  searchHistory :: "int set"
  moves :: "point list"
  iterations :: nat

text \<open>
  The outer loop \<open>for (i = 0; i < maxIterations; i++)\<close> with its \<open>break\<close>; the first
  argument counts the iterations that are left.
\<close>

fun lookLoop :: "nat \<Rightarrow> Mat \<Rightarrow> SearchMode \<Rightarrow> int \<Rightarrow> int \<Rightarrow> LookState \<Rightarrow> LookState" where
  "lookLoop 0 m searchMode stepSize radius s = s"
| "lookLoop (Suc n) m searchMode stepSize radius s =
     (let cs = candidates m (maxPos s) searchMode stepSize radius;
          best = selectBest (searchHistory s) cs 0 (0, 0);
          newMax = fst best;
          maxIndex = snd best
      in if newMax \<ge> maxValue s then
           (let p = snd (cs ! maxIndex)
            in lookLoop n m searchMode stepSize radius
                 \<lparr>maxPos = p, maxValue = newMax,
                  searchHistory = insert (posKey p) (searchHistory s),
                  moves = moves s @ [p], iterations = Suc (iterations s)\<rparr>)
         else s\<lparr>iterations := Suc (iterations s)\<rparr>)"

text \<open>
  The search of \<open>Hand::lookAround\<close> inside the window: the start point translated into
  the window, its coverage as the first maximum, an empty set, then the loop.
  \<open>windowSize\<close> is the default size of \<open>getSearchSpace\<close>, whose declaration is not in
  the source files; it is a parameter.
\<close>

definition lookSearch :: "int \<Rightarrow> point \<Rightarrow> Mat \<Rightarrow> int \<Rightarrow> int \<Rightarrow> int \<Rightarrow> SearchMode \<Rightarrow> LookState" where
  "lookSearch windowSize start skinMask maxIterations stepSize radius searchMode =
     (let space = getSearchSpace skinMask start windowSize;
          p = toSearchSpace space start
      in lookLoop (nat maxIterations) (ss_mat space) searchMode stepSize radius
           \<lparr>maxPos = p, maxValue = getCoverage p (ss_mat space) radius,
            searchHistory = {}, moves = [], iterations = 0\<rparr>)"

definition lookAround :: "int \<Rightarrow> point \<Rightarrow> Mat \<Rightarrow> int \<Rightarrow> int \<Rightarrow> int \<Rightarrow> SearchMode \<Rightarrow> point" where
  "lookAround windowSize start skinMask maxIterations stepSize radius searchMode =
     fromSearchSpace (getSearchSpace skinMask start windowSize)
       (maxPos (lookSearch windowSize start skinMask maxIterations stepSize radius searchMode))"

subsection \<open>The hand\<close>

text \<open>
  The blob record and the two enumerations come from \<open>HandDetector.h\<close>, which is not
  among the source files. \<open>Hand.cpp\<close> reads the four extreme points and the category of
  a blob, and tests a condition only against \<open>ONLY_HEAD\<close>; the other enumerators of
  \<open>Condition\<close> are one constructor here.
\<close>

datatype BlobType = LOW | MEDIUM | HIGH

datatype BlobInformation =
  BlobInformation (blob_left: point) (blob_right: point) (blob_top: point) (blob_bottom: point)
    (blob_type: BlobType)

datatype Condition = ONLY_HEAD | OTHER_CONDITION

text \<open>
  The members of \<open>Hand\<close> that the solver reads or writes. The class is declared in a
  header that is not among the source files, so the types of the scale constants are
  not known: \<open>historySize\<close> is an integer, and \<open>cmInPixels\<close>, \<open>maxVelocity\<close>, \<open>fps\<close>
  and \<open>faceCoverageThreshold\<close> are numbers, rendered as reals.
\<close>

record Hand =
  position :: point
  positionHistory :: "point list"
  positionIndex :: int
  blobEstimate :: point
  blobHistory :: "BlobInformation list"
  blobIndex :: int
  estimateUpdated :: bool
  intersecting :: bool
  ignoreIntersect :: bool
  leftHand :: bool
  historySize :: int
  cmInPixels :: real
  maxVelocity :: real
  fps :: real
  faceCoverageThreshold :: real

text \<open>
  Integer division and remainder of C++ round towards zero. A \<open>std::vector\<close> is a list;
  \<open>v[i]\<close> is unchecked in C++, so an index outside the vector has no defined meaning
  there, and none here.
\<close>

definition cdiv :: "int \<Rightarrow> int \<Rightarrow> int" where
  "cdiv a b = sgn a * sgn b * (\<bar>a\<bar> div \<bar>b\<bar>)"

definition cmod :: "int \<Rightarrow> int \<Rightarrow> int" where
  "cmod a b = a - b * cdiv a b"

definition getNextIndex :: "Hand \<Rightarrow> int \<Rightarrow> int" where
  "getNextIndex h index = cmod (index + 1) (historySize h)"

definition getPreviousIndex :: "Hand \<Rightarrow> int \<Rightarrow> int" where
  "getPreviousIndex h index =
     (if index - 1 < 0 then index - 1 + historySize h else index - 1)"

text \<open>
  Modelled from the spec: \<open>getDistance\<close> is a helper of \<open>MercuryCore\<close> that is not among
  the source files; the spec calls it the displacement between two points, a distance in
  pixels.
\<close>

definition getDistance :: "point \<Rightarrow> point \<Rightarrow> real" where
  "getDistance p q =
     sqrt (real_of_int ((pt_x p - pt_x q) * (pt_x p - pt_x q)
                        + (pt_y p - pt_y q) * (pt_y p - pt_y q)))"

subsubsection \<open>setEstimate\<close>

definition setEstimate :: "Hand \<Rightarrow> point \<Rightarrow> BlobInformation \<Rightarrow> bool \<Rightarrow> Condition \<Rightarrow> Hand" where
  "setEstimate h estimate blob ignoreIntersection condition =
     (let h1 = (if blob_type blob = HIGH \<or> ignoreIntersection = True
                then h\<lparr>ignoreIntersect := True\<rparr> else h)
      in if condition = ONLY_HEAD
            \<and> (pt_y (position h1) = 0
                 \<or> real_of_int (pt_y (position h1)) > faceCoverageThreshold h1)
         then h1
         else (let idx = getNextIndex h1 (blobIndex h1)
               in h1\<lparr>blobEstimate := estimate,
                      blobIndex := idx,
                      blobHistory := (blobHistory h1)[nat idx := blob],
                      estimateUpdated := True\<rparr>))"

subsubsection \<open>getPointQuality\<close>

text \<open>
  The point is passed by reference, moved into the window and moved back; the model
  returns the quality only. A radius of \<open>0\<close> is the default argument.
\<close>

definition getPointQuality :: "Hand \<Rightarrow> point \<Rightarrow> Mat \<Rightarrow> int \<Rightarrow> real" where
  "getPointQuality h p qualityMask radius =
     (let radius = (if radius = 0 then toInt (5 * cmInPixels h) else radius);
          space = getSearchSpace qualityMask p (2 * radius)
      in getCoverage (toSearchSpace space p) (ss_mat space) radius)"

subsubsection \<open>improveByAreaSearch and getPredictedPosition\<close>

text \<open>
  The functions that run \<open>lookAround\<close> take the default window size of
  \<open>getSearchSpace\<close> as their first argument \<open>w\<close>. \<open>improveByAreaSearch\<close> returns the hand
  and the boolean the code returns.
\<close>

definition improveByAreaSearch :: "int \<Rightarrow> Hand \<Rightarrow> Mat \<Rightarrow> point \<Rightarrow> Hand \<times> bool" where
  "improveByAreaSearch w h skinMask p =
     (let distance = getDistance p (position h);
          maxDistance = 2 * maxVelocity h * cmInPixels h / fps h
      in if distance > maxDistance \<or> estimateUpdated h = False then
           (let maxIterations = 10;
                stepSize = 4;
                radius = toInt (8.5 * cmInPixels h);
                pointQuality = getPointQuality h p skinMask 0
            in if pointQuality > 0.2 then
                 (h\<lparr>position := lookAround w p skinMask maxIterations stepSize radius FREE_SEARCH\<rparr>,
                  True)
               else (h, False))
         else (h, False))"

definition getPredictedPosition :: "Hand \<Rightarrow> Mat \<Rightarrow> point" where
  "getPredictedPosition h skinMask =
     (let p1_index = positionIndex h;
          p2_index = getPreviousIndex h p1_index;
          p3_index = getPreviousIndex h p2_index;
          position_n_1 = positionHistory h ! nat p1_index;
          position_n_2 = positionHistory h ! nat p2_index;
          position_n_3 = positionHistory h ! nat p3_index;
          dx1 = pt_x position_n_1 - pt_x position_n_2;
          dy1 = pt_y position_n_1 - pt_y position_n_2;
          dx2 = pt_x position_n_2 - pt_x position_n_3;
          dy2 = pt_y position_n_2 - pt_y position_n_3;
          predictedPosition = Point (pt_x position_n_1 + dx1) (pt_y position_n_1 + dy1);
          predictedPositionVelocity =
            Point (pt_x position_n_1 + cdiv (dx1 + dx2) 2) (pt_y position_n_1 + cdiv (dy1 + dy2) 2);
          pointQuality = getPointQuality h predictedPosition skinMask 0;
          pointQualityVelocity = getPointQuality h predictedPositionVelocity skinMask 0;
          predictedPosition =
            (if pointQualityVelocity > pointQuality then predictedPositionVelocity
             else predictedPosition)
      in if pointQuality > 0.2 then predictedPosition else Point 0 0)"

subsubsection \<open>getSearchModeFromBlobs and improveByCoverage\<close>

fun getSearchModeFromBlobs :: "Hand \<Rightarrow> BlobInformation list \<Rightarrow> SearchMode" where
  "getSearchModeFromBlobs h [] = FREE_SEARCH"
| "getSearchModeFromBlobs h (b # bs) =
     (if pt_x (blob_left b) \<le> pt_x (position h) \<and> pt_x (blob_right b) \<ge> pt_x (position h)
         \<and> pt_y (blob_top b) \<le> pt_y (position h) \<and> pt_y (blob_bottom b) \<ge> pt_y (position h)
      then (let height = pt_y (blob_bottom b) - pt_y (blob_top b)
            in if real_of_int height < 15 * cmInPixels h then FREE_SEARCH
               else (case blob_type b of
                       LOW \<Rightarrow> SEARCH_DOWN
                     | MEDIUM \<Rightarrow>
                         (if real_of_int height > 40 * cmInPixels h then SEARCH_DOWN
                          else FREE_SEARCH)
                     | HIGH \<Rightarrow> SEARCH_UP))
      else getSearchModeFromBlobs h bs)"

definition improveByCoverage :: "int \<Rightarrow> Hand \<Rightarrow> Mat \<Rightarrow> SearchMode \<Rightarrow> int \<Rightarrow> Hand" where
  "improveByCoverage w h skinMask searchMode maxIterations =
     (let stepSize = 3;
          radius = toInt (5 * cmInPixels h);
          maxPos = lookAround w (position h) skinMask maxIterations stepSize radius searchMode
      in h\<lparr>position := maxPos\<rparr>)"

subsubsection \<open>improveUsingHistory\<close>

text \<open>
  The averaging loop: \<open>n\<close> slots are still to be read, starting at \<open>index\<close> and walking
  backwards. \<open>None\<close> is the early \<open>return\<close> at a slot that is not filled; otherwise the
  two sums come back.
\<close>

fun sumHistory :: "Hand \<Rightarrow> nat \<Rightarrow> int \<Rightarrow> real \<times> real \<Rightarrow> (real \<times> real) option" where
  "sumHistory h 0 index acc = Some acc"
| "sumHistory h (Suc n) index acc =
     (let p = positionHistory h ! nat index
      in if pt_x p = 0 \<and> pt_y p = 0 then None
         else sumHistory h n (getPreviousIndex h index)
                (fst acc + real_of_int (pt_x p), snd acc + real_of_int (pt_y p)))"

text \<open>
  The arithmetic of \<open>improveUsingHistory\<close> is done in \<open>double\<close> and its result is
  converted to \<open>int\<close>, which turns a rounding error of the last bit into a whole pixel.
  \<open>fl64\<close> is the rounding of IEEE 754 binary64 (53 significant bits, to the nearest
  value, a tie to the even significand) for a number in the normal range, where all the
  values of this function lie: a literal, a product, a sum and a quotient of doubles are
  the rounded exact results. A coordinate and a sum of five coordinates are integers
  below \<open>2^53\<close> and are doubles as they are.
\<close>

definition roundHalfEven :: "real \<Rightarrow> int" where
  "roundHalfEven x =
     (let f = \<lfloor>x\<rfloor>;
          d = x - real_of_int f
      in if d < 1 / 2 then f else if 1 / 2 < d then f + 1 else if even f then f else f + 1)"

definition fl64 :: "real \<Rightarrow> real" where
  "fl64 x =
     (if x = 0 then 0
      else (let e = \<lfloor>log 2 \<bar>x\<bar>\<rfloor>;
                ulp = 2 powi (e - 52)
            in sgn x * (real_of_int (roundHalfEven (\<bar>x\<bar> / ulp)) * ulp)))"

text \<open>
  The assignment of a weighted sum to a coordinate, \<open>a * avg + b * coordinate\<close> with
  the literals \<open>a\<close> and \<open>b\<close>: two products and a sum in \<open>double\<close>, converted to
  \<open>int\<close>.
\<close>

definition weightedSum :: "real \<Rightarrow> real \<Rightarrow> real \<Rightarrow> real \<Rightarrow> int" where
  "weightedSum a b avg z = toInt (fl64 (fl64 (fl64 a * avg) + fl64 (fl64 b * z)))"

definition blend :: "real \<Rightarrow> real \<Rightarrow> real \<times> real \<Rightarrow> point \<Rightarrow> point" where
  "blend a b avg p =
     Point (weightedSum a b (fst avg) (real_of_int (pt_x p)))
           (weightedSum a b (snd avg) (real_of_int (pt_y p)))"

definition improveUsingHistory :: "Hand \<Rightarrow> Mat \<Rightarrow> Mat \<Rightarrow> Hand" where
  "improveUsingHistory h skinMask movementMap =
     (let historyAverage = 5;
          index = positionIndex h
      in case sumHistory h historyAverage index (0, 0) of
           None \<Rightarrow> h
         | Some sxy \<Rightarrow>
             (let avg = (fl64 (fst sxy / real historyAverage),
                         fl64 (snd sxy / real historyAverage));
                  movementCoverage = getPointQuality h (position h) movementMap 30
              in if movementCoverage < 0.001 then h\<lparr>position := blend 0.95 0.05 avg (position h)\<rparr>
                 else if movementCoverage < 0.05 then h\<lparr>position := blend 0.8 0.2 avg (position h)\<rparr>
                 else if movementCoverage < 0.2 then h\<lparr>position := blend 0.5 0.5 avg (position h)\<rparr>
                 else h))"

subsubsection \<open>handleIntersection\<close>

definition handleIntersection :: "int \<Rightarrow> Hand \<Rightarrow> point \<Rightarrow> Mat \<Rightarrow> Hand" where
  "handleIntersection w h otherHandPosition skinMask =
     (if pt_x (position h) \<noteq> 0 \<and> pt_y (position h) \<noteq> 0
         \<and> pt_x otherHandPosition \<noteq> 0 \<and> pt_y otherHandPosition \<noteq> 0
      then
        (let h1 = h\<lparr>intersecting := False\<rparr>;
             minimalDistance = toInt (8 * cmInPixels h1);
             dx = \<bar>pt_x (position h1) - pt_x otherHandPosition\<bar>;
             dy = \<bar>pt_y (position h1) - pt_y otherHandPosition\<bar>;
             distance = max 1.0 (sqrt (real_of_int (dx * dx + dy * dy)));
             side = (if leftHand h1 then SEARCH_LEFT else SEARCH_RIGHT);
             h2 = (if distance < real_of_int minimalDistance then
                     improveByCoverage w (h1\<lparr>intersecting := True\<rparr>) skinMask side 20
                   else if distance < real_of_int (2 * minimalDistance) then
                     improveByCoverage w h1 skinMask side 5
                   else h1);
             h3 = (if ignoreIntersect h2 then h2\<lparr>intersecting := False\<rparr> else h2)
         in h3\<lparr>ignoreIntersect := False\<rparr>)
      else h)"

subsubsection \<open>updateLastPoint and solve\<close>

definition updateLastPoint :: "Hand \<Rightarrow> Hand" where
  "updateLastPoint h =
     (let p0_index = positionIndex h;
          p1_index = getPreviousIndex h p0_index;
          p2_index = getPreviousIndex h p1_index;
          p0 = positionHistory h ! nat p0_index;
          p2 = positionHistory h ! nat p2_index
      in if pt_x p2 = 0 \<and> pt_y p2 = 0 then h
         else h\<lparr>positionHistory := (positionHistory h)
                   [nat p1_index :=
                      Point (toInt (0.5 * real_of_int (pt_x p0 + pt_x p2)))
                            (toInt (0.5 * real_of_int (pt_y p0 + pt_y p2)))]\<rparr>)"

text \<open>
  The first half of \<open>solve\<close>: the blob estimate is taken over when there is one, then the
  area search from the last position and, when that did not search, from the predicted
  position.
\<close>

definition solveRecover :: "int \<Rightarrow> Hand \<Rightarrow> Mat \<Rightarrow> Hand" where
  "solveRecover w h skinMask =
     (let h1 = (if estimateUpdated h = True then h\<lparr>position := blobEstimate h\<rparr> else h);
          lastPosition = positionHistory h1 ! nat (positionIndex h1)
      in if pt_x lastPosition \<noteq> 0 \<and> pt_y lastPosition \<noteq> 0 \<and> intersecting h1 = False then
           (let searched = improveByAreaSearch w h1 skinMask lastPosition;
                h2 = fst searched;
                areaSearched = snd searched
            in if \<not> areaSearched then
                 (let predictedPoint = getPredictedPosition h2 skinMask
                  in if pt_x predictedPoint \<noteq> 0 \<and> pt_y predictedPoint \<noteq> 0
                     then fst (improveByAreaSearch w h2 skinMask predictedPoint)
                     else h2)
               else h2)
         else h1)"

text \<open>
  The second half of \<open>solve\<close>, for a position that is initialized: refinement, smoothing,
  the new entry of the history and the midpoint of the entry before it.
\<close>

definition solveRefine :: "int \<Rightarrow> Hand \<Rightarrow> Mat \<Rightarrow> BlobInformation list \<Rightarrow> Mat \<Rightarrow> Hand" where
  "solveRefine w h skinMask blobs movementMap =
     (let searchMode = getSearchModeFromBlobs h blobs;
          h1 = improveByCoverage w h skinMask searchMode 5;
          h2 = improveUsingHistory h1 skinMask movementMap;
          idx = getNextIndex h2 (positionIndex h2);
          h3 = h2\<lparr>positionIndex := idx,
                  positionHistory := (positionHistory h2)[nat idx := position h2]\<rparr>
      in updateLastPoint h3)"

definition solve :: "int \<Rightarrow> Hand \<Rightarrow> Mat \<Rightarrow> BlobInformation list \<Rightarrow> Mat \<Rightarrow> Hand" where
  "solve w h skinMask blobs movementMap =
     (let h1 = solveRecover w h skinMask;
          h2 = (if pt_x (position h1) \<noteq> 0 \<and> pt_y (position h1) \<noteq> 0
                then solveRefine w h1 skinMask blobs movementMap
                else h1)
      in h2\<lparr>estimateUpdated := False\<rparr>)"

section \<open>Notions used to state and prove the properties\<close>

text \<open>
  The sum that \<open>getCoverage\<close> divides, written without the intermediate images: the
  values of the pixels of \<open>blobMap\<close> that lie in the circle.
\<close>

definition coverageSum :: "point \<Rightarrow> Mat \<Rightarrow> int \<Rightarrow> nat" where
  "coverageSum pos blobMap radius =
     sum_list (map (\<lambda>y. sum_list (map (\<lambda>x. if inCircle pos radius x y
                                             then unat (pixel blobMap x y) else 0)
        [0..<cols blobMap])) [0..<rows blobMap])"

text \<open>
  The change of the key when a search moves to its first candidate, the one it takes
  when no candidate was selected.
\<close>

definition keyStep :: "SearchMode \<Rightarrow> int \<Rightarrow> int" where
  "keyStep searchMode stepSize =
     (case offsets searchMode stepSize of
        [] \<Rightarrow> 0
      | (xOffset, yOffset) # _ \<Rightarrow> xOffset * 1000 + yOffset)"

text \<open>
  The invariant of the outer loop: \<open>maxValue\<close> is the coverage of \<open>maxPos\<close>, and as long
  as it is zero the search has only walked along its first offset.
\<close>

definition searchInv :: "Mat \<Rightarrow> SearchMode \<Rightarrow> int \<Rightarrow> int \<Rightarrow> LookState \<Rightarrow> bool" where
  "searchInv m searchMode stepSize radius s \<longleftrightarrow>
     maxValue s = getCoverage (maxPos s) m radius \<and>
     (maxValue s = 0 \<longrightarrow> stepSize = 0 \<or>
        (\<forall>v \<in> searchHistory s.
           \<exists>k::nat. v = posKey (maxPos s) - int k * keyStep searchMode stepSize))"

definition traceInv :: "LookState \<Rightarrow> bool" where
  "traceInv s \<longleftrightarrow>
     searchHistory s = posKey ` set (moves s) \<and> distinct (map posKey (moves s)) \<and>
     length (moves s) \<le> iterations s"

definition pathInv :: "Mat \<Rightarrow> int \<Rightarrow> point \<Rightarrow> LookState \<Rightarrow> bool" where
  "pathInv m radius p0 s \<longleftrightarrow>
     maxPos s = last (p0 # moves s) \<and>
     sorted (map (\<lambda>p. getCoverage p m radius) (p0 # moves s))"


subsection \<open>Scenarios\<close>

text \<open>
  A hand that is not tracked: sentinel position, empty history, ten pixels to the
  centimetre.
\<close>

definition lostHand :: Hand where
  "lostHand =
     \<lparr>position = Point 0 0,
      positionHistory = replicate 10 (Point 0 0),
      positionIndex = 0,
      blobEstimate = Point 0 0,
      blobHistory =
        replicate 10 (BlobInformation (Point 0 0) (Point 0 0) (Point 0 0) (Point 0 0) LOW),
      blobIndex = 0,
      estimateUpdated = False,
      intersecting = False,
      ignoreIntersect = False,
      leftHand = True,
      historySize = 10,
      cmInPixels = 10,
      maxVelocity = 100,
      fps = 30,
      faceCoverageThreshold = 50\<rparr>"

text \<open>A left hand that has rested at \<open>(100,100)\<close> for ten frames, and variants of it.\<close>

definition restingHand :: Hand where
  "restingHand = lostHand\<lparr>position := Point 100 100,
      positionHistory := replicate 10 (Point 100 100), positionIndex := 4\<rparr>"


definition crossingHand :: Hand where
  "crossingHand = restingHand\<lparr>position := Point 200 200\<rparr>"

definition borderHand :: Hand where
  "borderHand = restingHand\<lparr>position := Point 0 50\<rparr>"

text \<open>
  A hand that stood at \<open>(100,100)\<close> for two frames and then moved to \<open>(120,100)\<close>, one
  pixel to the centimetre, and a mask of 300 by 200 pixels with one square blob of 9 by 9
  pixels around \<open>(130,100)\<close>.
\<close>

definition trackedHand :: Hand where
  "trackedHand =
     \<lparr>position = Point 120 100,
      positionHistory = [Point 100 100, Point 100 100, Point 120 100] @ replicate 7 (Point 0 0),
      positionIndex = 2,
      blobEstimate = Point 0 0,
      blobHistory =
        replicate 10 (BlobInformation (Point 0 0) (Point 0 0) (Point 0 0) (Point 0 0) LOW),
      blobIndex = 0,
      estimateUpdated = False,
      intersecting = False,
      ignoreIntersect = False,
      leftHand = True,
      historySize = 10,
      cmInPixels = 1,
      maxVelocity = 100,
      fps = 30,
      faceCoverageThreshold = 50\<rparr>"

definition blobMask :: Mat where
  "blobMask =
     Mat 200 300 (\<lambda>x y. if 126 \<le> x \<and> x \<le> 134 \<and> 96 \<le> y \<and> y \<le> 104 then 255 else 0)"

text \<open>
  A hand that rested at \<open>(100,100)\<close> and then moved to \<open>(121,100)\<close> in one frame, one
  pixel to the centimetre: \<open>solve\<close> stored the new position and \<open>updateLastPoint\<close>
  replaced the entry before it by the midpoint \<open>(110,100)\<close>. The mask of 300 by 200
  pixels is on up to the column 128.
\<close>

definition movingHand :: Hand where
  "movingHand = restingHand\<lparr>position := Point 121 100,
      positionHistory := replicate 8 (Point 100 100) @ [Point 110 100, Point 121 100],
      positionIndex := 9, cmInPixels := 1\<rparr>"

definition halfMask :: Mat where
  "halfMask = Mat 200 300 (\<lambda>x y. if x \<le> 128 then 255 else 0)"


text \<open>
  The resting hand after \<open>setEstimate\<close> accepted an estimate on the left border of the
  frame.
\<close>

definition estimatedHand :: Hand where
  "estimatedHand = restingHand\<lparr>blobEstimate := Point 0 50, estimateUpdated := True\<rparr>"

text \<open>
  A mask of 4 by 3 pixels whose last column is on, and a mask of 7 by 5 pixels whose last
  two columns are on.
\<close>

definition stepMask :: Mat where
  "stepMask = Mat 5 7 (\<lambda>x y. if 5 \<le> x then 255 else 0)"

definition edgeMask :: Mat where
  "edgeMask = Mat 3 4 (\<lambda>x y. if 3 \<le> x then 255 else 0)"

section \<open>Auxiliary lemmas\<close>

subsection \<open>Numbers and points\<close>

lemma toInt_of_int [simp]: "toInt (real_of_int n) = n"
  by (simp add: toInt_def)

lemma toInt_numeral [simp]: "toInt (numeral n) = numeral n"
  by (simp add: toInt_def)

lemma toInt_half: "toInt (17 / 2) = 8"
  by (simp add: toInt_def)

subsection \<open>Rounding to binary64\<close>

text \<open>
  A positive number whose significand, scaled by \<open>2^k\<close>, lies between \<open>2^52\<close> and
  \<open>2^53\<close> is rounded by rounding the scaled number to an integer.
\<close>

lemma fl64_eval:
  assumes "0 < x" and "2 ^ 52 \<le> x * 2 ^ k" and "x * 2 ^ k < 2 ^ 53"
  shows "fl64 x = real_of_int (roundHalfEven (x * 2 ^ k)) / 2 ^ k"
proof -
  define e where "e = 52 - int k"
  have p: "(2::real) powi e = 2 ^ 52 / 2 ^ k" "(2::real) powi (e + 1) = 2 ^ 53 / 2 ^ k"
    "(2::real) powi (e - 52) = 1 / 2 ^ k"
    by (simp_all add: e_def power_int_diff power_int_add power_int_minus field_simps)
  have lo: "2 powr real_of_int e \<le> x"
    using assms(2) by (simp add: powr_real_of_int' p field_simps)
  have "2 powr real_of_int (e + 1) = (2::real) powi (e + 1)"
    by (rule powr_real_of_int') simp_all
  then have hi: "x < 2 powr real_of_int (e + 1)"
    using assms(3) by (simp only: p) (simp add: field_simps)
  have "\<lfloor>log 2 x\<rfloor> = e"
    using lo hi assms(1) floor_log_eq_powr_iff [of x 2 e] by simp
  with assms(1) show ?thesis
    by (simp add: fl64_def Let_def p)
qed

lemma fl64_095: "fl64 (19 / 20) = 4278419646001971 / 4503599627370496"
  by (subst fl64_eval [where k = 53]) (simp_all add: roundHalfEven_def Let_def)

lemma fl64_005: "fl64 (1 / 20) = 3602879701896397 / 72057594037927936"
  by (subst fl64_eval [where k = 57]) (simp_all add: roundHalfEven_def Let_def)








lemma fl64_095_7: "fl64 (4278419646001971 / 4503599627370496 * 7) = 7487234380503449 / 1125899906842624"
  by (subst fl64_eval [where k = 50]) (simp_all add: roundHalfEven_def Let_def)

lemma fl64_005_7: "fl64 (3602879701896397 / 72057594037927936 * 7) = 6305039478318695 / 18014398509481984"
  by (subst fl64_eval [where k = 54]) (simp_all add: roundHalfEven_def Let_def)

lemma fl64_sum_7:
  "fl64 (7487234380503449 / 1125899906842624 + 6305039478318695 / 18014398509481984)
     = 7881299347898367 / 1125899906842624"
  by (subst fl64_eval [where k = 50]) (simp_all add: roundHalfEven_def Let_def)







text \<open>
  The weights 0.95 and 0.05 do not add up to the value when it is the same on both
  sides: \<open>0.95 * 7 + 0.05 * 7\<close> is \<open>6.999999999999999\<close> in \<open>double\<close>, and the
  conversion makes it 6.
\<close>

lemma weightedSum_7: "weightedSum (19 / 20) (1 / 20) 7 7 = 6"
  unfolding weightedSum_def fl64_095 fl64_005 fl64_095_7 fl64_005_7 fl64_sum_7
  by (simp add: toInt_def)


lemma to_from_SearchSpace [simp]:
  "toSearchSpace space (fromSearchSpace space p) = p"
  "fromSearchSpace space (toSearchSpace space p) = p"
  by (simp_all add: toSearchSpace_def fromSearchSpace_def)

subsection \<open>Sums over an image\<close>

lemma sum_list_zero: "(\<And>x. x \<in> set xs \<Longrightarrow> f x = (0::nat)) \<Longrightarrow> sum_list (map f xs) = 0"
  by (induction xs) auto

lemma sum_list_le: "(\<And>x. x \<in> set xs \<Longrightarrow> f x \<le> (g x :: nat)) \<Longrightarrow> sum_list (map f xs) \<le> sum_list (map g xs)"
  by (induction xs) (auto intro: add_mono)

lemma row_count: "sum_list (map (\<lambda>x. if P x then c else (0::nat)) xs) = c * length (filter P xs)"
  by (induction xs) auto

lemma sum_list_const_mult: "sum_list (map (\<lambda>y. c * f y) ys) = c * sum_list (map f ys)" for c :: nat
  by (induction ys) (auto simp: algebra_simps)

lemma matSum_masked:
  "matSum (bitwise_and blobMap (circle (zeros (rows blobMap) (cols blobMap)) pos radius 255)) =
     sum_list (map (\<lambda>y. sum_list (map (\<lambda>x. if inCircle pos radius x y then unat (pixel blobMap x y) else 0)
        [0..<cols blobMap])) [0..<rows blobMap])"
proof -
  have px: "unat (pixel blobMap x y AND (if inCircle pos radius x y then 255 else 0)) =
     (if inCircle pos radius x y then unat (pixel blobMap x y) else 0)" for x y
  proof (cases "inCircle pos radius x y")
    case True
    have "(255 :: 8 word) = - 1" by simp
    then have "pixel blobMap x y AND 255 = pixel blobMap x y"
      by (simp only: and.right_neutral)
    with True show ?thesis by simp
  next
    case False
    then show ?thesis by simp
  qed
  have m: "bitwise_and blobMap (circle (zeros (rows blobMap) (cols blobMap)) pos radius 255) =
      Mat (rows blobMap) (cols blobMap)
        (\<lambda>x y. pixel blobMap x y AND (if inCircle pos radius x y then 255 else 0))"
    by (simp add: bitwise_and_def circle_def zeros_def cong: if_cong)
  have r: "rowSum (Mat a b f) = (\<lambda>y. sum_list (map (\<lambda>x. unat (f x y)) [0..<b]))" for a b f
    by (simp add: rowSum_def fun_eq_iff)
  show ?thesis
    unfolding m matSum_def by (simp add: r px)
qed

lemma matSum_full:
  assumes "\<And>x y. x < cols m \<Longrightarrow> y < rows m \<Longrightarrow> pixel m x y = 255"
  shows "matSum (bitwise_and m (circle (zeros (rows m) (cols m)) pos radius 255)) = 255 * circleArea m pos radius"
proof -
  have "sum_list (map (\<lambda>x. if inCircle pos radius x y then unat (pixel m x y) else 0) [0..<cols m])
      = 255 * length (filter (\<lambda>x. inCircle pos radius x y) [0..<cols m])" if "y < rows m" for y
  proof -
    have h: "map (\<lambda>x. if inCircle pos radius x y then unat (pixel m x y) else 0) [0..<cols m]
       = map (\<lambda>x. if inCircle pos radius x y then 255 else 0) [0..<cols m]"
      using assms that by (intro map_cong) auto
    show ?thesis unfolding h by (simp add: row_count)
  qed
  then have h2: "map (\<lambda>y. sum_list (map (\<lambda>x. if inCircle pos radius x y then unat (pixel m x y) else 0) [0..<cols m])) [0..<rows m]
     = map (\<lambda>y. 255 * length (filter (\<lambda>x. inCircle pos radius x y) [0..<cols m])) [0..<rows m]"
    by (intro map_cong) auto
  show ?thesis
    unfolding matSum_masked h2 by (simp add: circleArea_def sum_list_const_mult)
qed

lemma matSum_le:
  "matSum (bitwise_and m (circle (zeros (rows m) (cols m)) pos radius 255)) \<le> 255 * circleArea m pos radius"
proof -
  have u: "unat (w :: 8 word) \<le> 255" for w
    using unsigned_less [of w, where ?'a = nat] by simp
  have "sum_list (map (\<lambda>x. if inCircle pos radius x y then unat (pixel m x y) else 0) [0..<cols m])
      \<le> 255 * length (filter (\<lambda>x. inCircle pos radius x y) [0..<cols m])" for y
  proof -
    have "sum_list (map (\<lambda>x. if inCircle pos radius x y then unat (pixel m x y) else 0) [0..<cols m])
       \<le> sum_list (map (\<lambda>x. if inCircle pos radius x y then 255 else 0) [0..<cols m])"
      by (rule sum_list_le) (simp add: u)
    then show ?thesis by (simp add: row_count)
  qed
  then have "sum_list (map (\<lambda>y. sum_list (map (\<lambda>x. if inCircle pos radius x y then unat (pixel m x y) else 0) [0..<cols m])) [0..<rows m])
     \<le> sum_list (map (\<lambda>y. 255 * length (filter (\<lambda>x. inCircle pos radius x y) [0..<cols m])) [0..<rows m])"
    by (intro sum_list_le)
  then show ?thesis
    by (simp add: matSum_masked circleArea_def sum_list_const_mult)
qed

lemma matSum_zero:
  assumes "\<And>x y. x < cols m \<Longrightarrow> y < rows m \<Longrightarrow> pixel m x y = 0"
  shows "matSum (bitwise_and m (circle (zeros (rows m) (cols m)) pos radius 255)) = 0"
  unfolding matSum_masked
  by (intro sum_list_zero) (simp add: assms)

lemma getCoverage_nonneg: "0 \<le> getCoverage pos m radius"
  by (simp add: getCoverage_def Let_def)

lemma getCoverage_sum:
  "getCoverage pos m radius = real (coverageSum pos m radius) / (real_of_int (radius * radius) * 3.1415 * 255)"
  by (simp add: getCoverage_def Let_def matSum_masked coverageSum_def)

lemma getCoverage_zero:
  "getCoverage pos (Mat r c (\<lambda>x y. 0)) radius = 0"
proof -
  have "matSum (bitwise_and (Mat r c (\<lambda>x y. 0))
          (circle (zeros (rows (Mat r c (\<lambda>x y. 0))) (cols (Mat r c (\<lambda>x y. 0)))) pos radius 255)) = 0"
    by (rule matSum_zero) simp
  then show ?thesis by (simp add: getCoverage_def Let_def)
qed

lemma getPointQuality_zero: "getPointQuality h p (filled r c 0) radius = 0"
  by (simp add: getPointQuality_def Let_def getSearchSpace_def filled_def getCoverage_zero)

lemma getCoverage_filled:
  assumes "0 < radius"
  shows "getCoverage pos (filled r c 0) radius = 0"
    and "getCoverage pos (filled r c 255) radius
         = real (circleArea (filled r c 255) pos radius) / (real_of_int (radius * radius) * 3.1415)"
    and "getCoverage pos m radius
         \<le> real (circleArea m pos radius) / (real_of_int (radius * radius) * 3.1415)"
proof -
  have pos: "0 < real_of_int (radius * radius)" using assms by simp
  have le: "real (matSum (bitwise_and m (circle (zeros (rows m) (cols m)) pos radius 255)))
      \<le> 255 * real (circleArea m pos radius)"
    using matSum_le [of m pos radius] by (metis of_nat_le_iff of_nat_mult of_nat_numeral)
  show "getCoverage pos m radius
         \<le> real (circleArea m pos radius) / (real_of_int (radius * radius) * 3.1415)"
    unfolding getCoverage_def Let_def using pos le
    by (simp add: field_simps)
  show "getCoverage pos (filled r c 0) radius = 0"
    by (simp add: filled_def getCoverage_zero)
  have "matSum (bitwise_and (filled r c 255)
          (circle (zeros (rows (filled r c 255)) (cols (filled r c 255))) pos radius 255))
        = 255 * circleArea (filled r c 255) pos radius"
    by (rule matSum_full) (simp add: filled_def)
  then show "getCoverage pos (filled r c 255) radius
         = real (circleArea (filled r c 255) pos radius) / (real_of_int (radius * radius) * 3.1415)"
    using pos by (simp add: getCoverage_def Let_def)
qed

subsection \<open>The loops of the local search\<close>

lemma keyStep_nonzero: "stepSize \<noteq> 0 \<Longrightarrow> keyStep searchMode stepSize \<noteq> 0"
  by (cases searchMode) (auto simp: keyStep_def)

lemma candidates_nonempty: "0 < length (candidates m p searchMode stepSize radius)"
  by (cases searchMode) (simp_all add: candidates_def)

lemma candidates_value:
  "c \<in> set (candidates m p searchMode stepSize radius) \<Longrightarrow> fst c = getCoverage (snd c) m radius"
  by (auto simp: candidates_def shiftPosition_def Let_def)

lemma candidates_first_key:
  "posKey (snd (candidates m p searchMode stepSize radius ! 0)) = posKey p + keyStep searchMode stepSize"
  by (cases searchMode) (simp_all add: candidates_def shiftPosition_def Let_def posKey_def keyStep_def)

lemma candidates_first_still:
  "snd (candidates m p searchMode 0 radius ! 0) = p"
  by (cases searchMode) (simp_all add: candidates_def shiftPosition_def Let_def)

lemma selectBest_cases:
  "selectBest visited cs j acc = r \<Longrightarrow>
     (r = acc \<and> (\<forall>c \<in> set cs. \<not> (fst acc < fst c \<and> posKey (snd c) \<notin> visited))) \<or>
     (fst acc < fst r \<and> j \<le> snd r \<and> snd r < j + length cs \<and>
        fst (cs ! (snd r - j)) = fst r \<and> posKey (snd (cs ! (snd r - j))) \<notin> visited)"
proof (induction cs arbitrary: j acc)
  case Nil
  then show ?case by simp
next
  case (Cons c cs)
  let ?acc = "if fst acc < fst c \<and> posKey (snd c) \<notin> visited then (fst c, j) else acc"
  from Cons.prems have r: "selectBest visited cs (Suc j) ?acc = r" by simp
  from Cons.IH [OF r]
  consider (same) "r = ?acc" "\<forall>c \<in> set cs. \<not> (fst ?acc < fst c \<and> posKey (snd c) \<notin> visited)"
    | (later) "fst ?acc < fst r" "Suc j \<le> snd r" "snd r < Suc j + length cs"
        "fst (cs ! (snd r - Suc j)) = fst r" "posKey (snd (cs ! (snd r - Suc j))) \<notin> visited"
    by blast
  then show ?case
  proof cases
    case same
    show ?thesis
    proof (cases "fst acc < fst c \<and> posKey (snd c) \<notin> visited")
      case True
      with same have "r = (fst c, j)" by simp
      with True show ?thesis by simp
    next
      case False
      with same show ?thesis by auto
    qed
  next
    case later
    have "snd r - j = Suc (snd r - Suc j)"
      using later(2) by arith
    then have idx: "(c # cs) ! (snd r - j) = cs ! (snd r - Suc j)"
      by simp
    have "fst acc \<le> fst ?acc" by simp
    with later idx show ?thesis by (simp del: nth_Cons_Suc)
  qed
qed

lemma accepted_move:
  assumes inv: "searchInv m searchMode stepSize radius s"
    and cs: "cs = candidates m (maxPos s) searchMode stepSize radius"
    and best: "best = selectBest (searchHistory s) cs 0 (0, 0)"
    and acc: "fst best \<ge> maxValue s"
    and p: "p = snd (cs ! snd best)"
  shows "getCoverage p m radius = fst best"
    and "stepSize \<noteq> 0 \<Longrightarrow> posKey p \<notin> searchHistory s"
    and "fst best = 0 \<longrightarrow> stepSize = 0 \<or>
           (\<forall>v \<in> insert (posKey p) (searchHistory s).
              \<exists>k::nat. v = posKey p - int k * keyStep searchMode stepSize)"
proof -
  have mv: "maxValue s = getCoverage (maxPos s) m radius"
    and prog: "maxValue s = 0 \<Longrightarrow> stepSize \<noteq> 0 \<Longrightarrow>
        \<forall>v \<in> searchHistory s. \<exists>k::nat. v = posKey (maxPos s) - int k * keyStep searchMode stepSize"
    using inv by (auto simp: searchInv_def)
  have nonneg: "0 \<le> maxValue s" by (simp add: mv getCoverage_nonneg)
  have len: "0 < length cs" unfolding cs by (rule candidates_nonempty)
  from selectBest_cases [OF best [symmetric]]
  consider (default) "best = (0, 0)"
      "\<forall>c \<in> set cs. \<not> (0 < fst c \<and> posKey (snd c) \<notin> searchHistory s)"
    | (chosen) "0 < fst best" "snd best < length cs" "fst (cs ! snd best) = fst best"
        "posKey (snd (cs ! snd best)) \<notin> searchHistory s"
    by auto
  then have "getCoverage p m radius = fst best \<and>
      (stepSize \<noteq> 0 \<longrightarrow> posKey p \<notin> searchHistory s) \<and>
      (fst best = 0 \<longrightarrow> stepSize = 0 \<or>
           (\<forall>v \<in> insert (posKey p) (searchHistory s).
              \<exists>k::nat. v = posKey p - int k * keyStep searchMode stepSize))"
  proof cases
    case chosen
    have "cs ! snd best \<in> set cs" using chosen(2) by simp
    then have "fst (cs ! snd best) = getCoverage (snd (cs ! snd best)) m radius"
      unfolding cs by (rule candidates_value)
    with chosen show ?thesis by (simp add: p)
  next
    case default
    then have p0: "p = snd (cs ! 0)" by (simp add: p)
    from default acc nonneg have zero: "maxValue s = 0" by simp
    have c0: "cs ! 0 \<in> set cs" using len by simp
    show ?thesis
    proof (cases "stepSize = 0")
      case True
      then have "p = maxPos s"
        using candidates_first_still [of m "maxPos s" searchMode radius] by (simp add: p0 cs)
      with True default zero mv show ?thesis by simp
    next
      case False
      let ?d = "keyStep searchMode stepSize"
      have d: "?d \<noteq> 0" using False by (rule keyStep_nonzero)
      have key: "posKey p = posKey (maxPos s) + ?d"
        by (simp add: p0 cs candidates_first_key)
      have old: "\<forall>v \<in> searchHistory s. \<exists>k::nat. v = posKey (maxPos s) - int k * ?d"
        using prog zero False by blast
      have fresh: "posKey p \<notin> searchHistory s"
      proof
        assume "posKey p \<in> searchHistory s"
        with old obtain k :: nat where "posKey p = posKey (maxPos s) - int k * ?d" by blast
        with key have "(int k + 1) * ?d = 0" by (simp add: algebra_simps)
        with d show False by simp
      qed
      have "\<not> (0 < fst (cs ! 0) \<and> posKey (snd (cs ! 0)) \<notin> searchHistory s)"
        using default(2) c0 by blast
      with fresh have "fst (cs ! 0) \<le> 0" by (simp add: p0)
      moreover have "fst (cs ! 0) = getCoverage p m radius"
        using candidates_value [of "cs ! 0" m "maxPos s" searchMode stepSize radius] c0
        by (simp add: cs p0)
      ultimately have cov: "getCoverage p m radius = 0"
        using getCoverage_nonneg [of p m radius] by simp
      have new: "\<exists>k::nat. v = posKey p - int k * ?d" if "v \<in> insert (posKey p) (searchHistory s)" for v
      proof (cases "v = posKey p")
        case True
        then have "v = posKey p - int 0 * ?d" by simp
        then show ?thesis by blast
      next
        case False
        with that old obtain k :: nat where "v = posKey (maxPos s) - int k * ?d" by blast
        then have "v = posKey p - int (Suc k) * ?d" by (simp add: key algebra_simps)
        then show ?thesis by blast
      qed
      from cov fresh new default show ?thesis by simp
    qed
  qed
  then show "getCoverage p m radius = fst best"
    and "stepSize \<noteq> 0 \<Longrightarrow> posKey p \<notin> searchHistory s"
    and "fst best = 0 \<longrightarrow> stepSize = 0 \<or>
           (\<forall>v \<in> insert (posKey p) (searchHistory s).
              \<exists>k::nat. v = posKey p - int k * keyStep searchMode stepSize)"
    by blast+
qed

lemma lookLoop_inv:
  "searchInv m searchMode stepSize radius s \<Longrightarrow>
     searchInv m searchMode stepSize radius (lookLoop n m searchMode stepSize radius s) \<and>
     maxValue s \<le> maxValue (lookLoop n m searchMode stepSize radius s)"
proof (induction n arbitrary: s)
  case 0
  then show ?case by simp
next
  case (Suc n)
  define cs where "cs = candidates m (maxPos s) searchMode stepSize radius"
  define best where "best = selectBest (searchHistory s) cs 0 (0, 0)"
  define p where "p = snd (cs ! snd best)"
  define s' where "s' = \<lparr>maxPos = p, maxValue = fst best,
      searchHistory = insert (posKey p) (searchHistory s),
      moves = moves s @ [p], iterations = Suc (iterations s)\<rparr>"
  show ?case
  proof (cases "fst best \<ge> maxValue s")
    case True
    have step: "lookLoop (Suc n) m searchMode stepSize radius s = lookLoop n m searchMode stepSize radius s'"
      using True by (simp add: Let_def cs_def [symmetric] best_def [symmetric] p_def [symmetric] s'_def)
    note am = accepted_move [OF Suc.prems cs_def best_def True p_def]
    have "searchInv m searchMode stepSize radius s'"
      unfolding searchInv_def using am(1) am(3) by (simp add: s'_def)
    from Suc.IH [OF this] True show ?thesis
      unfolding step by (simp add: s'_def)
  next
    case False
    then have "lookLoop (Suc n) m searchMode stepSize radius s = s\<lparr>iterations := Suc (iterations s)\<rparr>"
      by (simp add: Let_def cs_def [symmetric] best_def [symmetric])
    with Suc.prems show ?thesis by (simp add: searchInv_def)
  qed
qed

lemma lookLoop_trace:
  "stepSize \<noteq> 0 \<Longrightarrow> searchInv m searchMode stepSize radius s \<Longrightarrow> traceInv s \<Longrightarrow>
     traceInv (lookLoop n m searchMode stepSize radius s) \<and>
     iterations (lookLoop n m searchMode stepSize radius s) \<le> iterations s + n"
proof (induction n arbitrary: s)
  case 0
  then show ?case by simp
next
  case (Suc n)
  define cs where "cs = candidates m (maxPos s) searchMode stepSize radius"
  define best where "best = selectBest (searchHistory s) cs 0 (0, 0)"
  define p where "p = snd (cs ! snd best)"
  define s' where "s' = \<lparr>maxPos = p, maxValue = fst best,
      searchHistory = insert (posKey p) (searchHistory s),
      moves = moves s @ [p], iterations = Suc (iterations s)\<rparr>"
  show ?case
  proof (cases "fst best \<ge> maxValue s")
    case True
    have step: "lookLoop (Suc n) m searchMode stepSize radius s = lookLoop n m searchMode stepSize radius s'"
      using True by (simp add: Let_def cs_def [symmetric] best_def [symmetric] p_def [symmetric] s'_def)
    note am = accepted_move [OF Suc.prems(2) cs_def best_def True p_def]
    have inv': "searchInv m searchMode stepSize radius s'"
      unfolding searchInv_def using am(1) am(3) by (simp add: s'_def)
    have fresh: "posKey p \<notin> posKey ` set (moves s)"
      using am(2) [OF Suc.prems(1)] Suc.prems(3) by (simp add: traceInv_def)
    have tr': "traceInv s'"
      using Suc.prems(3) fresh by (auto simp: traceInv_def s'_def)
    from Suc.IH [OF Suc.prems(1) inv' tr'] show ?thesis
      unfolding step by (simp add: s'_def)
  next
    case False
    then have "lookLoop (Suc n) m searchMode stepSize radius s = s\<lparr>iterations := Suc (iterations s)\<rparr>"
      by (simp add: Let_def cs_def [symmetric] best_def [symmetric])
    with Suc.prems show ?thesis by (simp add: traceInv_def)
  qed
qed

lemma sorted_le_last: "sorted xs \<Longrightarrow> x \<in> set xs \<Longrightarrow> x \<le> (last xs :: real)"
  by (induction xs) (auto split: if_splits)

lemma lookLoop_path:
  "searchInv m searchMode stepSize radius s \<Longrightarrow> pathInv m radius p0 s \<Longrightarrow>
     pathInv m radius p0 (lookLoop n m searchMode stepSize radius s)"
proof (induction n arbitrary: s)
  case 0
  then show ?case by simp
next
  case (Suc n)
  define cs where "cs = candidates m (maxPos s) searchMode stepSize radius"
  define best where "best = selectBest (searchHistory s) cs 0 (0, 0)"
  define p where "p = snd (cs ! snd best)"
  define s' where "s' = \<lparr>maxPos = p, maxValue = fst best,
      searchHistory = insert (posKey p) (searchHistory s),
      moves = moves s @ [p], iterations = Suc (iterations s)\<rparr>"
  let ?cov = "\<lambda>p. getCoverage p m radius"
  show ?case
  proof (cases "fst best \<ge> maxValue s")
    case True
    have step: "lookLoop (Suc n) m searchMode stepSize radius s = lookLoop n m searchMode stepSize radius s'"
      using True by (simp add: Let_def cs_def [symmetric] best_def [symmetric] p_def [symmetric] s'_def)
    note am = accepted_move [OF Suc.prems(1) cs_def best_def True p_def]
    have inv': "searchInv m searchMode stepSize radius s'"
      unfolding searchInv_def using am(1) am(3) by (simp add: s'_def)
    have mv: "maxValue s = ?cov (maxPos s)"
      using Suc.prems(1) by (simp add: searchInv_def)
    have srt: "sorted (map ?cov (p0 # moves s))" and lst: "maxPos s = last (p0 # moves s)"
      using Suc.prems(2) by (simp_all add: pathInv_def)
    have le: "v \<le> ?cov p" if "v \<in> set (map ?cov (p0 # moves s))" for v
    proof -
      have "v \<le> last (map ?cov (p0 # moves s))"
        using srt that by (rule sorted_le_last)
      also have "\<dots> = ?cov (maxPos s)"
        unfolding lst by (simp add: last_map)
      also have "\<dots> \<le> ?cov p" using True mv am(1) by simp
      finally show ?thesis .
    qed
    have "sorted (map ?cov (p0 # moves s) @ [?cov p])"
      using srt le by (simp only: sorted_append) simp
    then have "pathInv m radius p0 s'"
      by (simp add: pathInv_def s'_def)
    from Suc.IH [OF inv' this] show ?thesis unfolding step .
  next
    case False
    then have "lookLoop (Suc n) m searchMode stepSize radius s = s\<lparr>iterations := Suc (iterations s)\<rparr>"
      by (simp add: Let_def cs_def [symmetric] best_def [symmetric])
    with Suc.prems show ?thesis by (simp add: pathInv_def)
  qed
qed

lemma searchInv_start:
  "searchInv m searchMode stepSize radius
     \<lparr>maxPos = p, maxValue = getCoverage p m radius, searchHistory = {}, moves = [], iterations = 0\<rparr>"
  by (simp add: searchInv_def)

lemma lookAround_path:
  "(let space = getSearchSpace skinMask start w;
              coverage = (\<lambda>p. getCoverage (toSearchSpace space p) (ss_mat space) radius);
              s = lookSearch w start skinMask maxIterations stepSize radius searchMode
          in coverage start \<le> coverage (lookAround w start skinMask maxIterations stepSize radius searchMode)
             \<and> sorted (map coverage (start # map (fromSearchSpace space) (moves s)))
             \<and> lookAround w start skinMask maxIterations stepSize radius searchMode
                 = last (start # map (fromSearchSpace space) (moves s)))"
proof -
  define space where "space = getSearchSpace skinMask start w"
  define p0 where "p0 = toSearchSpace space start"
  define s0 where "s0 = \<lparr>maxPos = p0, maxValue = getCoverage p0 (ss_mat space) radius,
      searchHistory = {}, moves = [], iterations = 0\<rparr>"
  define s where "s = lookLoop (nat maxIterations) (ss_mat space) searchMode stepSize radius s0"
  have ls: "lookSearch w start skinMask maxIterations stepSize radius searchMode = s"
    by (simp add: lookSearch_def Let_def s_def s0_def p0_def space_def)
  have la: "lookAround w start skinMask maxIterations stepSize radius searchMode = fromSearchSpace space (maxPos s)"
    by (simp add: lookAround_def ls space_def)
  have inv0: "searchInv (ss_mat space) searchMode stepSize radius s0"
    unfolding s0_def by (rule searchInv_start)
  have path0: "pathInv (ss_mat space) radius p0 s0"
    by (simp add: pathInv_def s0_def)
  have mono: "maxValue s0 \<le> maxValue s" and inv: "searchInv (ss_mat space) searchMode stepSize radius s"
    using lookLoop_inv [OF inv0, of "nat maxIterations"] by (simp_all add: s_def)
  have path: "pathInv (ss_mat space) radius p0 s"
    unfolding s_def using inv0 path0 by (rule lookLoop_path)
  have c1: "getCoverage p0 (ss_mat space) radius \<le> getCoverage (maxPos s) (ss_mat space) radius"
    using mono inv by (simp add: searchInv_def s0_def)
  have m: "map (\<lambda>p. getCoverage (toSearchSpace space p) (ss_mat space) radius)
             (start # map (fromSearchSpace space) (moves s))
           = map (\<lambda>p. getCoverage p (ss_mat space) radius) (p0 # moves s)"
    by (simp add: p0_def comp_def)
  have l: "last (start # map (fromSearchSpace space) (moves s)) = fromSearchSpace space (last (p0 # moves s))"
    by (simp add: p0_def last_map)
  show ?thesis
    unfolding Let_def space_def [symmetric] ls la m l
    using c1 path by (simp add: pathInv_def p0_def)
qed

lemma lookSearch_trace:
  assumes "stepSize \<noteq> 0"
  shows "traceInv (lookSearch w start skinMask maxIterations stepSize radius searchMode)"
    and "iterations (lookSearch w start skinMask maxIterations stepSize radius searchMode)
           \<le> nat maxIterations"
proof -
  define space where "space = getSearchSpace skinMask start w"
  define p0 where "p0 = toSearchSpace space start"
  define s0 where "s0 = \<lparr>maxPos = p0, maxValue = getCoverage p0 (ss_mat space) radius,
      searchHistory = {}, moves = [], iterations = 0\<rparr>"
  define s where "s = lookLoop (nat maxIterations) (ss_mat space) searchMode stepSize radius s0"
  have ls: "lookSearch w start skinMask maxIterations stepSize radius searchMode = s"
    by (simp add: lookSearch_def Let_def s_def s0_def p0_def space_def)
  have inv0: "searchInv (ss_mat space) searchMode stepSize radius s0"
    unfolding s0_def by (rule searchInv_start)
  have tr0: "traceInv s0" by (simp add: traceInv_def s0_def)
  show "traceInv (lookSearch w start skinMask maxIterations stepSize radius searchMode)"
    and "iterations (lookSearch w start skinMask maxIterations stepSize radius searchMode)
           \<le> nat maxIterations"
    using lookLoop_trace [OF assms inv0 tr0, of "nat maxIterations"]
    by (simp_all add: ls s_def s0_def)
qed

subsection \<open>The hand\<close>

lemma improveByCoverage_fields:
  "ignoreIntersect (improveByCoverage w h m sm n) = ignoreIntersect h"
  "intersecting (improveByCoverage w h m sm n) = intersecting h"
  "position (improveByCoverage w h m sm n) = lookAround w (position h) m n 3 (toInt (5 * cmInPixels h)) sm"
  by (simp_all add: improveByCoverage_def Let_def)

lemma improveByAreaSearch_fields:
  "positionHistory (fst (improveByAreaSearch w h m p)) = positionHistory h"
  "positionIndex (fst (improveByAreaSearch w h m p)) = positionIndex h"
  by (simp_all add: improveByAreaSearch_def Let_def)

lemma solveRecover_fields:
  "positionHistory (solveRecover w h m) = positionHistory h"
  "positionIndex (solveRecover w h m) = positionIndex h"
  by (simp_all add: solveRecover_def Let_def improveByAreaSearch_fields)

lemma handleIntersection_unchanged:
  "pt_x (position h) = 0 \<or> pt_y (position h) = 0 \<or> pt_x other = 0 \<or> pt_y other = 0 \<Longrightarrow>
   handleIntersection w h other skinMask = h"
  by (auto simp: handleIntersection_def)


lemma getPredictedPosition_gate:
  "getPredictedPosition h skinMask =
     (let n1 = positionHistory h ! nat (positionIndex h);
          n2 = positionHistory h ! nat (getPreviousIndex h (positionIndex h));
          n3 = positionHistory h ! nat (getPreviousIndex h (getPreviousIndex h (positionIndex h)));
          linear = Point (pt_x n1 + (pt_x n1 - pt_x n2)) (pt_y n1 + (pt_y n1 - pt_y n2));
          averaged = Point (pt_x n1 + cdiv ((pt_x n1 - pt_x n2) + (pt_x n2 - pt_x n3)) 2)
                           (pt_y n1 + cdiv ((pt_y n1 - pt_y n2) + (pt_y n2 - pt_y n3)) 2)
      in if getPointQuality h linear skinMask 0 > 0.2 then
           (if getPointQuality h averaged skinMask 0 > getPointQuality h linear skinMask 0
            then averaged else linear)
         else Point 0 0)"
  by (simp add: getPredictedPosition_def Let_def)

subsection \<open>Values in the scenarios\<close>

lemma edge_search: "lookAround 10 (Point 1 1) edgeMask 1 1 1 SEARCH_LEFT = Point 2 2"
  by code_simp

lemma step_moves: "moves (lookSearch 10 (Point 1 2) stepMask 2 3 1 SEARCH_LEFT) = [Point 4 2, Point 7 2]"
  by code_simp

lemma edge_space: "getSearchSpace edgeMask (Point 1 1) 10 = SearchSpace edgeMask 0 0"
  by (simp add: getSearchSpace_def edgeMask_def)

text \<open>
  The comment of \<open>getCoverage\<close> promises a value between 0 and 1. The circle of radius 1
  covers five pixels, and the divisor takes its area as \<open>3.1415\<close>: on a mask that is on
  the value is above 1.
\<close>

lemma area5: "circleArea (filled 3 3 255) (Point 1 1) 1 = 5"
  by code_simp

lemma getCoverage_above_one: "1 < getCoverage (Point 1 1) (filled 3 3 255) 1"
proof -
  have "getCoverage (Point 1 1) (filled 3 3 255) 1 = 5 / 3.1415"
    using getCoverage_filled(2) [of 1 "Point 1 1" 3 3] by (simp add: area5)
  then show ?thesis by simp
qed

lemma area49: "circleArea (filled 9 9 255) (Point 4 4) 4 = 49"
  by code_simp

lemma area17: "circleArea (filled 9 9 255) (Point 0 0) 4 = 17"
  by code_simp




lemma q_sum1: "coverageSum (toSearchSpace (getSearchSpace blobMask (Point 130 100) 10) (Point 130 100))
          (ss_mat (getSearchSpace blobMask (Point 130 100) 10)) 5 = 19635"
  by code_simp

lemma q_sum2: "coverageSum (toSearchSpace (getSearchSpace blobMask (Point 140 100) 10) (Point 140 100))
          (ss_mat (getSearchSpace blobMask (Point 140 100) 10)) 5 = 0"
  by code_simp

lemma r5: "toInt (5 * cmInPixels trackedHand) = 5"
  using toInt_of_int [of 5] by (simp add: trackedHand_def)

lemma q1: "getPointQuality trackedHand (Point 130 100) blobMask 0 = 19635 / (25 * 3.1415 * 255)"
  by (simp add: getPointQuality_def Let_def r5 getCoverage_sum q_sum1)

lemma q2: "getPointQuality trackedHand (Point 140 100) blobMask 0 = 0"
  by (simp add: getPointQuality_def Let_def r5 getCoverage_sum q_sum2)

lemma half_sum1: "coverageSum (toSearchSpace (getSearchSpace halfMask (Point 131 100) 10) (Point 131 100))
          (ss_mat (getSearchSpace halfMask (Point 131 100) 10)) 5 = 4335"
  by code_simp

lemma half_sum2: "coverageSum (toSearchSpace (getSearchSpace halfMask (Point 132 100) 10) (Point 132 100))
          (ss_mat (getSearchSpace halfMask (Point 132 100) 10)) 5 = 2040"
  by code_simp

lemma moving_radius: "toInt (5 * cmInPixels movingHand) = 5"
  using toInt_of_int [of 5] by (simp add: movingHand_def)

lemma half_q1: "getPointQuality movingHand (Point 131 100) halfMask 0 = 4335 / (25 * 3.1415 * 255)"
  by (simp add: getPointQuality_def Let_def moving_radius getCoverage_sum half_sum1)

lemma half_q2: "getPointQuality movingHand (Point 132 100) halfMask 0 = 2040 / (25 * 3.1415 * 255)"
  by (simp add: getPointQuality_def Let_def moving_radius getCoverage_sum half_sum2)

lemma moving_hist: "positionHistory movingHand ! 9 = Point 121 100"
   "positionHistory movingHand ! 8 = Point 110 100"
   "positionHistory movingHand ! 7 = Point 100 100"
  by (simp_all add: movingHand_def eval_nat_numeral nth_append)

lemma moving_index: "positionIndex movingHand = 9" "getPreviousIndex movingHand 9 = 8"
    "getPreviousIndex movingHand 8 = 7"
  by (simp_all add: movingHand_def restingHand_def lostHand_def getPreviousIndex_def)

lemma toInt_midpoint: "toInt (221 / 2) = 110"
  by (simp add: toInt_def)

lemma moving_closed: "updateLastPoint movingHand = movingHand"
proof -
  have "(positionHistory movingHand)[8 := Point 110 100] = positionHistory movingHand"
    by (simp add: movingHand_def eval_nat_numeral)
  then show ?thesis
    by (simp add: updateLastPoint_def Let_def moving_index moving_hist toInt_midpoint)
qed

lemma solveRecover_estimated:
  "solveRecover 100 estimatedHand (filled 400 400 0) = estimatedHand\<lparr>position := Point 0 50\<rparr>"
proof -
  have a: "improveByAreaSearch 100 h (filled 400 400 0) p = (h, False)" for h p
    by (simp add: improveByAreaSearch_def Let_def getPointQuality_zero)
  have g: "getPredictedPosition h (filled 400 400 0) = Point 0 0" for h
    by (simp add: getPredictedPosition_def Let_def getPointQuality_zero)
  show ?thesis
    by (simp add: solveRecover_def Let_def a g) (simp add: estimatedHand_def restingHand_def lostHand_def)
qed

section \<open>The properties\<close>

subsection \<open>C1: the quality gate of the predicted position\<close>

text \<open>
  C1. For a hand whose last three history points are initialized,
  \<open>getPredictedPosition\<close> computes the linear extrapolation and the velocity-averaged
  extrapolation, prefers the one of higher quality, and should return the preferred
  point exactly when the quality of that point exceeds 0.2, the sentinel \<open>(0,0)\<close>
  otherwise.

  The code compares \<open>pointQuality\<close>, the quality of the linear extrapolation, with 0.2
  also after it has replaced \<open>predictedPosition\<close> by the averaged point (lemma
  \<open>getPredictedPosition_gate\<close>). The history of \<open>movingHand\<close> is one that \<open>solve\<close>
  leaves behind: \<open>updateLastPoint\<close> does not change it. Its linear extrapolation is
  \<open>(132,100)\<close> and its averaged extrapolation is \<open>(131,100)\<close>. On \<open>halfMask\<close> the
  averaged point has the higher quality, and that quality exceeds 0.2, yet the sentinel
  is returned.
\<close>

theorem getPredictedPosition_drops_preferred_point:
  "getPredictedPosition movingHand halfMask = Point 0 0
   \<and> getPointQuality movingHand (Point 132 100) halfMask 0
       < getPointQuality movingHand (Point 131 100) halfMask 0
   \<and> 0.2 < getPointQuality movingHand (Point 131 100) halfMask 0
   \<and> updateLastPoint movingHand = movingHand"
proof -
  have c: "cdiv 21 2 = 10" "cdiv 0 2 = 0" by (simp_all add: cdiv_def)
  have "getPredictedPosition movingHand halfMask = Point 0 0"
    by (simp add: getPredictedPosition_def Let_def moving_index moving_hist c half_q1 half_q2)
  then show ?thesis by (simp add: half_q1 half_q2 moving_closed)
qed

subsection \<open>C2: the local search never loses coverage\<close>

text \<open>
  C2. For every start point, mask, iteration bound, step size, search mode and every
  radius greater than zero, the point that \<open>lookAround\<close> returns has a coverage greater
  than or equal to the coverage of the start point, and the coverage does not decrease
  along the points the search moves to. The coverage is the one the search evaluates:
  \<open>getCoverage\<close> in the search window, at the point translated into the window. (For a
  radius of zero or less the quotient of \<open>getCoverage\<close> is not a number, or OpenCV
  rejects the circle.)
\<close>

theorem lookAround_coverage_monotone:
  assumes "0 < radius"
  shows "(let space = getSearchSpace skinMask start w;
              coverage = (\<lambda>p. getCoverage (toSearchSpace space p) (ss_mat space) radius);
              s = lookSearch w start skinMask maxIterations stepSize radius searchMode
          in coverage start
               \<le> coverage (lookAround w start skinMask maxIterations stepSize radius searchMode)
             \<and> sorted (map coverage (start # map (fromSearchSpace space) (moves s)))
             \<and> lookAround w start skinMask maxIterations stepSize radius searchMode
                 = last (start # map (fromSearchSpace space) (moves s)))"
  by (rule lookAround_path)

theorem lookAround_coverage_monotone_witness:
  "(0::int) < 1 \<and> lookAround 10 (Point 1 1) edgeMask 1 1 1 SEARCH_LEFT = Point 2 2
   \<and> getCoverage (Point 1 1) edgeMask 1 \<le> getCoverage (Point 2 2) edgeMask 1"
proof -
  have h: "(0::int) < 1" by simp
  note t = lookAround_coverage_monotone [where radius = 1 and skinMask = edgeMask
      and start = "Point 1 1" and w = 10 and maxIterations = 1 and stepSize = 1
      and searchMode = SEARCH_LEFT, OF h]
  from t have "getCoverage (toSearchSpace (getSearchSpace edgeMask (Point 1 1) 10) (Point 1 1))
        (ss_mat (getSearchSpace edgeMask (Point 1 1) 10)) 1
      \<le> getCoverage (toSearchSpace (getSearchSpace edgeMask (Point 1 1) 10)
            (lookAround 10 (Point 1 1) edgeMask 1 1 1 SEARCH_LEFT))
        (ss_mat (getSearchSpace edgeMask (Point 1 1) 10)) 1"
    unfolding Let_def by (rule conjunct1)
  then show ?thesis
    by (simp add: edge_search edge_space toSearchSpace_def)
qed

subsection \<open>C3: the local search is bounded and does not revisit\<close>

text \<open>
  C3. One call of \<open>lookAround\<close> runs its loop body at most \<open>maxIterations\<close> times,
  moves at most once per iteration, and never moves to a point whose key is already in
  its set of visited keys: the keys of the points it moved to are pairwise distinct, and
  they are exactly the set. The point returned is the last point moved to, or the start
  point when there was no move. \<open>lookAround\<close> is private; its step size is one of the
  literals 4 (\<open>improveByAreaSearch\<close>) and 3 (\<open>improveByCoverage\<close>), so it is not zero,
  and its radius is greater than zero.
\<close>

theorem lookAround_bounded_no_revisit:
  assumes "stepSize \<noteq> 0" and "0 < radius"
  shows "(let s = lookSearch w start skinMask maxIterations stepSize radius searchMode
          in int (iterations s) \<le> max 0 maxIterations
             \<and> length (moves s) \<le> iterations s
             \<and> distinct (map posKey (moves s))
             \<and> searchHistory s = posKey ` set (moves s)
             \<and> lookAround w start skinMask maxIterations stepSize radius searchMode
                 = last (start # map (fromSearchSpace (getSearchSpace skinMask start w)) (moves s)))"
proof -
  define s where "s = lookSearch w start skinMask maxIterations stepSize radius searchMode"
  have tr: "traceInv s" and it: "iterations s \<le> nat maxIterations"
    unfolding s_def using assms(1) by (rule lookSearch_trace)+
  have lst: "lookAround w start skinMask maxIterations stepSize radius searchMode
                 = last (start # map (fromSearchSpace (getSearchSpace skinMask start w)) (moves s))"
    using lookAround_path [of skinMask start w radius maxIterations stepSize searchMode]
    by (simp add: Let_def s_def)
  from it have "int (iterations s) \<le> max 0 maxIterations" by linarith
  with tr lst show ?thesis
    unfolding Let_def s_def [symmetric] by (simp add: traceInv_def)
qed

theorem lookAround_bounded_no_revisit_witness:
  "(3::int) \<noteq> 0 \<and> (0::int) < 1
   \<and> moves (lookSearch 10 (Point 1 2) stepMask 2 3 1 SEARCH_LEFT) = [Point 4 2, Point 7 2]
   \<and> iterations (lookSearch 10 (Point 1 2) stepMask 2 3 1 SEARCH_LEFT) \<le> 2
   \<and> distinct (map posKey (moves (lookSearch 10 (Point 1 2) stepMask 2 3 1 SEARCH_LEFT)))
   \<and> searchHistory (lookSearch 10 (Point 1 2) stepMask 2 3 1 SEARCH_LEFT) = {4002, 7002}"
  using lookAround_bounded_no_revisit [of 3 1 10 "Point 1 2" stepMask 2 SEARCH_LEFT]
  by (simp add: Let_def step_moves posKey_def insert_commute)

subsection \<open>C4: the area search\<close>

text \<open>
  C4. \<open>improveByAreaSearch\<close> runs the local search from the reference point
  (\<open>FREE_SEARCH\<close>, at most 10 iterations, step 4, radius 8.5 cm in pixels, converted to
  an integer), adopts the result as position and returns true if and only if the
  distance between the reference point and the position exceeds
  \<open>2 * maxVelocity * cmInPixels / fps\<close> or no estimate was accepted in this frame, and
  the quality of the reference point exceeds 0.2. In every other case it returns false
  and leaves the hand as it is. The frame rate is positive and the default quality
  radius, 5 cm in pixels, is at least one pixel, so that both quotients are numbers.
\<close>

theorem improveByAreaSearch_iff:
  assumes "0 < fps h" and "0 < toInt (5 * cmInPixels h)"
  shows "improveByAreaSearch w h skinMask p =
     (if (getDistance p (position h) > 2 * maxVelocity h * cmInPixels h / fps h
            \<or> \<not> estimateUpdated h)
          \<and> getPointQuality h p skinMask 0 > 0.2
      then (h\<lparr>position :=
                lookAround w p skinMask 10 4 (toInt (8.5 * cmInPixels h)) FREE_SEARCH\<rparr>,
            True)
      else (h, False))"
  by (simp add: improveByAreaSearch_def Let_def)

theorem improveByAreaSearch_iff_witness:
  "0 < fps trackedHand \<and> 0 < toInt (5 * cmInPixels trackedHand)
   \<and> improveByAreaSearch 100 trackedHand blobMask (Point 130 100)
       = (trackedHand\<lparr>position := lookAround 100 (Point 130 100) blobMask 10 4 8 FREE_SEARCH\<rparr>,
          True)
   \<and> improveByAreaSearch 100 trackedHand blobMask (Point 140 100) = (trackedHand, False)"
proof -
  have h1: "0 < fps trackedHand" by (simp add: trackedHand_def)
  have h2: "0 < toInt (5 * cmInPixels trackedHand)" by (simp add: r5)
  have e: "\<not> estimateUpdated trackedHand" "cmInPixels trackedHand = 1"
    by (simp_all add: trackedHand_def)
  have a: "improveByAreaSearch 100 trackedHand blobMask (Point 130 100)
       = (trackedHand\<lparr>position := lookAround 100 (Point 130 100) blobMask 10 4 8 FREE_SEARCH\<rparr>,
          True)"
    unfolding improveByAreaSearch_iff [OF h1 h2] by (simp add: e q1 toInt_half)
  have b: "improveByAreaSearch 100 trackedHand blobMask (Point 140 100) = (trackedHand, False)"
    unfolding improveByAreaSearch_iff [OF h1 h2] by (simp add: e q2)
  from h1 h2 a b show ?thesis by simp
qed

subsection \<open>C5: an estimate that is rejected\<close>

text \<open>
  C5, as the code has it. When \<open>setEstimate\<close> is called with the condition \<open>ONLY_HEAD\<close>
  and the stored \<open>position.y\<close> is 0 or greater than \<open>faceCoverageThreshold\<close>, the
  estimate is rejected: \<open>estimateUpdated\<close>, \<open>position\<close>, \<open>blobEstimate\<close>,
  \<open>blobHistory\<close> and \<open>blobIndex\<close> are unchanged, and so is every other member but
  \<open>ignoreIntersect\<close>, which is set before the test when the blob is \<open>HIGH\<close> or
  \<open>ignoreIntersection\<close> is passed as true.
\<close>

theorem setEstimate_only_head_rejected:
  assumes "pt_y (position h) = 0 \<or> real_of_int (pt_y (position h)) > faceCoverageThreshold h"
  shows "setEstimate h estimate blob ignoreIntersection ONLY_HEAD =
           h\<lparr>ignoreIntersect := ignoreIntersect h \<or> blob_type blob = HIGH \<or> ignoreIntersection\<rparr>
         \<and> estimateUpdated (setEstimate h estimate blob ignoreIntersection ONLY_HEAD)
             = estimateUpdated h
         \<and> position (setEstimate h estimate blob ignoreIntersection ONLY_HEAD) = position h
         \<and> blobEstimate (setEstimate h estimate blob ignoreIntersection ONLY_HEAD) = blobEstimate h
         \<and> blobHistory (setEstimate h estimate blob ignoreIntersection ONLY_HEAD) = blobHistory h
         \<and> blobIndex (setEstimate h estimate blob ignoreIntersection ONLY_HEAD) = blobIndex h"
  using assms by (auto simp: setEstimate_def Let_def)

theorem setEstimate_only_head_rejected_witness:
  "(pt_y (position lostHand) = 0
      \<or> real_of_int (pt_y (position lostHand)) > faceCoverageThreshold lostHand)
   \<and> setEstimate lostHand (Point 5 5)
        (BlobInformation (Point 1 1) (Point 9 9) (Point 1 1) (Point 9 9) LOW) False ONLY_HEAD
       = lostHand"
proof -
  have h: "pt_y (position lostHand) = 0
      \<or> real_of_int (pt_y (position lostHand)) > faceCoverageThreshold lostHand"
    by (simp add: lostHand_def)
  show ?thesis
    using h setEstimate_only_head_rejected [OF h, of "Point 5 5"
        "BlobInformation (Point 1 1) (Point 9 9) (Point 1 1) (Point 9 9) LOW" False]
    by (simp add: lostHand_def)
qed

theorem setEstimate_only_head_counterexample:
  "pt_y (position lostHand) = 0
   \<and> setEstimate lostHand (Point 5 5)
        (BlobInformation (Point 1 1) (Point 9 9) (Point 1 1) (Point 9 9) HIGH) False ONLY_HEAD
       \<noteq> lostHand"
proof -
  have "ignoreIntersect (setEstimate lostHand (Point 5 5)
          (BlobInformation (Point 1 1) (Point 9 9) (Point 1 1) (Point 9 9) HIGH) False ONLY_HEAD)"
    by (simp add: setEstimate_def Let_def lostHand_def)
  moreover have "\<not> ignoreIntersect lostHand" by (simp add: lostHand_def)
  ultimately show ?thesis by (auto simp: lostHand_def)
qed

subsection \<open>C6: smoothing by the history\<close>



subsection \<open>C7: two hands that come close\<close>

text \<open>
  C7, as the code has it. \<open>handleIntersection\<close> acts only when both coordinates of the
  position and both coordinates of the other position are different from zero; a
  position on the left or upper border of the frame counts as uninitialized, and the
  hand is then left as it is. Otherwise the distance \<open>d\<close> is the Euclidean pixel distance
  of the two positions, but at least 1, and the threshold \<open>m\<close> is 8 cm in pixels
  converted to an integer. When \<open>d < m\<close> the biased search runs with 20 iterations
  (\<open>SEARCH_LEFT\<close> for the left hand, \<open>SEARCH_RIGHT\<close> for the right hand) and
  \<open>intersecting\<close> becomes true unless \<open>ignoreIntersect\<close> was set; when
  \<open>m \<le> d < 2 * m\<close> the search runs with 5 iterations and \<open>intersecting\<close> becomes
  false; otherwise no search runs and \<open>intersecting\<close> becomes false. In the three cases
  \<open>ignoreIntersect\<close> is cleared.
\<close>

theorem handleIntersection_cases:
  "handleIntersection w h other skinMask =
     (if pt_x (position h) \<noteq> 0 \<and> pt_y (position h) \<noteq> 0 \<and> pt_x other \<noteq> 0 \<and> pt_y other \<noteq> 0 then
        (let distance = max 1 (getDistance (position h) other);
             minimalDistance = toInt (8 * cmInPixels h);
             side = (if leftHand h then SEARCH_LEFT else SEARCH_RIGHT)
         in if distance < real_of_int minimalDistance then
              (improveByCoverage w h skinMask side 20)
                \<lparr>intersecting := \<not> ignoreIntersect h, ignoreIntersect := False\<rparr>
            else if distance < real_of_int (2 * minimalDistance) then
              (improveByCoverage w h skinMask side 5)
                \<lparr>intersecting := False, ignoreIntersect := False\<rparr>
            else h\<lparr>intersecting := False, ignoreIntersect := False\<rparr>)
      else h)"
proof -
  have d: "sqrt (real_of_int
             (\<bar>pt_x (position (h\<lparr>intersecting := False\<rparr>)) - pt_x other\<bar>
                * \<bar>pt_x (position (h\<lparr>intersecting := False\<rparr>)) - pt_x other\<bar>
              + \<bar>pt_y (position (h\<lparr>intersecting := False\<rparr>)) - pt_y other\<bar>
                * \<bar>pt_y (position (h\<lparr>intersecting := False\<rparr>)) - pt_y other\<bar>))
           = getDistance (position h) other"
    by (simp add: getDistance_def)
  show ?thesis
    unfolding handleIntersection_def Let_def d
    by (simp add: improveByCoverage_def Let_def)
qed

theorem handleIntersection_cases_witness:
  "intersecting (handleIntersection 100 crossingHand (Point 200 200) (filled 400 400 255)) = True
   \<and> ignoreIntersect (handleIntersection 100 crossingHand (Point 200 200) (filled 400 400 255))
       = False
   \<and> position (handleIntersection 100 crossingHand (Point 200 200) (filled 400 400 255))
       = lookAround 100 (Point 200 200) (filled 400 400 255) 20 3 50 SEARCH_LEFT"
proof -
  have d: "getDistance (Point 200 200) (Point 200 200) = 0"
    by (simp add: getDistance_def)
  have f: "position crossingHand = Point 200 200" "cmInPixels crossingHand = 10"
    "leftHand crossingHand" "\<not> ignoreIntersect crossingHand"
    by (simp_all add: crossingHand_def restingHand_def lostHand_def)
  show ?thesis
    unfolding handleIntersection_cases [of 100 crossingHand "Point 200 200" "filled 400 400 255"]
    by (simp add: Let_def f d improveByCoverage_fields)
qed

theorem handleIntersection_border_counterexample:
  "position borderHand \<noteq> Point 0 0 \<and> Point 3 50 \<noteq> Point 0 0
   \<and> getDistance (position borderHand) (Point 3 50) < 8 * cmInPixels borderHand
   \<and> \<not> intersecting (handleIntersection 100 borderHand (Point 3 50) (filled 400 400 255))
   \<and> handleIntersection 100 borderHand (Point 3 50) (filled 400 400 255) = borderHand"
proof -
  have s: "sqrt 9 = 3" using real_sqrt_abs [of 3] by simp
  have d: "getDistance (position borderHand) (Point 3 50) = 3"
    by (simp add: getDistance_def borderHand_def s)
  have u: "handleIntersection 100 borderHand (Point 3 50) (filled 400 400 255) = borderHand"
    by (simp add: handleIntersection_def borderHand_def)
  show ?thesis
    unfolding u d by (simp add: borderHand_def restingHand_def lostHand_def)
qed

subsection \<open>C8: the flag ignoreIntersect after handleIntersection\<close>

text \<open>
  C8, as the code has it. After a call of \<open>handleIntersection\<close> the flag
  \<open>ignoreIntersect\<close> is false when both coordinates of the position and both
  coordinates of the other position are different from zero; when one of the four is
  zero the call changes nothing and the flag keeps its value.
\<close>

theorem handleIntersection_clears_flag:
  "ignoreIntersect (handleIntersection w h other skinMask) \<longleftrightarrow>
     ignoreIntersect h \<and>
     (pt_x (position h) = 0 \<or> pt_y (position h) = 0 \<or> pt_x other = 0 \<or> pt_y other = 0)"
  by (simp add: handleIntersection_def Let_def)

theorem handleIntersection_clears_flag_witness:
  "ignoreIntersect (crossingHand\<lparr>ignoreIntersect := True\<rparr>)
   \<and> \<not> ignoreIntersect
         (handleIntersection 100 (crossingHand\<lparr>ignoreIntersect := True\<rparr>) (Point 200 200)
            (filled 400 400 255))"
  using handleIntersection_clears_flag [of 100 "crossingHand\<lparr>ignoreIntersect := True\<rparr>"
      "Point 200 200" "filled 400 400 255"]
  by (simp add: crossingHand_def)

theorem handleIntersection_flag_counterexample:
  "ignoreIntersect
     (handleIntersection 100 (lostHand\<lparr>ignoreIntersect := True\<rparr>) (Point 200 200)
        (filled 400 400 255))"
  by (simp add: handleIntersection_def lostHand_def)

subsection \<open>C9: the value of the coverage\<close>

text \<open>
  C9, as the code has it. For a radius greater than zero \<open>getCoverage\<close> is the sum of
  the mask values inside the circle divided by \<open>radius * radius * 3.1415 * 255\<close>. It is
  never negative and it is 0 on a mask that is all zero. The circle is drawn on an image
  of the size of the mask, so only the part of it inside the mask counts: the value is
  at most the number of pixels of the mask inside the circle divided by
  \<open>radius * radius * 3.1415\<close>, and this is its value on a mask that is all 255. At a
  point near the border of such a mask the value is therefore not 1: it is the share of
  the circle that lies inside the mask (the counterexample below, at a corner).
\<close>

theorem getCoverage_value:
  assumes "0 < radius"
  shows "0 \<le> getCoverage pos m radius
     \<and> getCoverage pos m radius
         = real (coverageSum pos m radius) / (real_of_int (radius * radius) * 3.1415 * 255)
     \<and> getCoverage pos m radius
         \<le> real (circleArea m pos radius) / (real_of_int (radius * radius) * 3.1415)
     \<and> getCoverage pos (filled r c 0) radius = 0
     \<and> getCoverage pos (filled r c 255) radius
         = real (circleArea (filled r c 255) pos radius) / (real_of_int (radius * radius) * 3.1415)"
  using getCoverage_filled [OF assms]
  by (simp add: getCoverage_nonneg getCoverage_sum)

theorem getCoverage_value_witness:
  "(0::int) < 4 \<and> 0 \<le> getCoverage (Point 4 4) (filled 9 9 255) 4
   \<and> getCoverage (Point 4 4) (filled 9 9 0) 4 = 0
   \<and> getCoverage (Point 4 4) (filled 9 9 255) 4 = 49 / (16 * 3.1415)"
  using getCoverage_value [of 4 "Point 4 4" "filled 9 9 255" 9 9]
  by (simp add: area49)

theorem getCoverage_range_counterexample:
  "(0::int) < 4 \<and> getCoverage (Point 0 0) (filled 9 9 255) 4 < 1 / 2"
proof -
  have "getCoverage (Point 0 0) (filled 9 9 255) 4 = 17 / (16 * 3.1415)"
    using getCoverage_filled(2) [of 4 "Point 0 0" 9 9] by (simp add: area17)
  then show ?thesis by simp
qed

subsection \<open>C10: a position with a zero coordinate is not refined\<close>

text \<open>
  C10. When the position has a zero coordinate after the first half of \<open>solve\<close> (the
  blob estimate taken over, the area search from the last position and from the
  predicted position), the refinement, the smoothing and the history update are
  skipped: \<open>solve\<close> returns the hand of the first half with \<open>estimateUpdated\<close> reset, so
  \<open>positionHistory\<close> and \<open>positionIndex\<close> are those of the hand before the call, and
  \<open>estimateUpdated\<close> is false.
\<close>

theorem solve_uninitialized:
  assumes "pt_x (position (solveRecover w h skinMask)) = 0
           \<or> pt_y (position (solveRecover w h skinMask)) = 0"
  shows "solve w h skinMask blobs movementMap
           = (solveRecover w h skinMask)\<lparr>estimateUpdated := False\<rparr>
       \<and> positionHistory (solve w h skinMask blobs movementMap) = positionHistory h
       \<and> positionIndex (solve w h skinMask blobs movementMap) = positionIndex h
       \<and> estimateUpdated (solve w h skinMask blobs movementMap) = False"
proof -
  have s: "solve w h skinMask blobs movementMap
             = (solveRecover w h skinMask)\<lparr>estimateUpdated := False\<rparr>"
    using assms by (auto simp: solve_def Let_def)
  show ?thesis
    unfolding s by (simp add: solveRecover_fields)
qed

theorem solve_uninitialized_witness:
  "(pt_x (position (solveRecover 100 estimatedHand (filled 400 400 0))) = 0
      \<or> pt_y (position (solveRecover 100 estimatedHand (filled 400 400 0))) = 0)
   \<and> position (solveRecover 100 estimatedHand (filled 400 400 0)) = Point 0 50
   \<and> solve 100 estimatedHand (filled 400 400 0) [] (filled 400 400 0)
       = estimatedHand\<lparr>position := Point 0 50, estimateUpdated := False\<rparr>
   \<and> positionHistory (solve 100 estimatedHand (filled 400 400 0) [] (filled 400 400 0))
       = replicate 10 (Point 100 100)
   \<and> positionIndex (solve 100 estimatedHand (filled 400 400 0) [] (filled 400 400 0)) = 4"
proof -
  have r: "solveRecover 100 estimatedHand (filled 400 400 0)
             = estimatedHand\<lparr>position := Point 0 50\<rparr>"
    by (rule solveRecover_estimated)
  have h: "pt_x (position (solveRecover 100 estimatedHand (filled 400 400 0))) = 0
      \<or> pt_y (position (solveRecover 100 estimatedHand (filled 400 400 0))) = 0"
    unfolding r by simp
  show ?thesis
    using h solve_uninitialized [OF h, of "[]" "filled 400 400 0"]
    unfolding r by (simp add: estimatedHand_def restingHand_def lostHand_def)
qed

end
